theory Spec2Isabelle
  imports Main
begin

section \<open>api-smoke: a shallow embedding of \<^verbatim>\<open>src/index.ts\<close>\<close>

text \<open>
  The development follows the test-execution engine of the runner: \<^verbatim>\<open>makeRequest\<close>,
  \<^verbatim>\<open>checkAssertions\<close>, \<^verbatim>\<open>runTest\<close> and \<^verbatim>\<open>cmdRun\<close>.

  Modelling conventions.
  \<^item> A JavaScript object used as a dictionary (\<^verbatim>\<open>Record<string, T>\<close>) is the list of
    its own properties in enumeration order (the order of \<^verbatim>\<open>Object.entries\<close>), with
    distinctness of keys maintained by \<open>obj_set\<close>. Properties inherited from the
    prototype are not part of the model.
  \<^item> An optional field (\<^verbatim>\<open>f?: T\<close>, value \<^verbatim>\<open>undefined\<close>) is an \<open>option\<close>.
  \<^item> Numbers are integers (status codes, timeouts, integral JSON numbers, which
    JavaScript prints in plain decimal below \<open>10\<^sup>2\<^sup>1\<close>); strings are \<open>char list\<close>, a
    character standing for one code unit.
  \<^item> Record fields carry a short prefix, since the interfaces of the source share
    field names (\<^verbatim>\<open>status\<close>, \<^verbatim>\<open>headers\<close>, \<^verbatim>\<open>body\<close>, \<^verbatim>\<open>passed\<close>).
  \<^item> What the program obtains from its platform (the network, the clock, the file
    system, \<^verbatim>\<open>JSON.parse\<close>) is a parameter of the model.
\<close>

subsection \<open>Strings\<close>

definition dq :: char where
  "dq = CHR 0x22"

definition bs :: char where
  "bs = CHR 0x5C"

text \<open>\<^verbatim>\<open>String.prototype.includes\<close>: a literal substring test.\<close>

fun starts_with :: "string \<Rightarrow> string \<Rightarrow> bool" where
  "starts_with s [] = True"
| "starts_with [] (c # cs) = False"
| "starts_with (d # ds) (c # cs) = (d = c \<and> starts_with ds cs)"

fun str_includes :: "string \<Rightarrow> string \<Rightarrow> bool" where
  "str_includes [] term = (term = [])"
| "str_includes (c # cs) term = (starts_with (c # cs) term \<or> str_includes cs term)"

text \<open>\<^verbatim>\<open>String.prototype.toLowerCase\<close> on the ASCII letters (header names are ASCII).\<close>

definition lower_char :: "char \<Rightarrow> char" where
  "lower_char c =
     (if (65::nat) \<le> of_char c \<and> of_char c \<le> (90::nat) then char_of (of_char c + (32::nat)) else c)"

definition toLowerCase :: "string \<Rightarrow> string" where
  "toLowerCase s = map lower_char s"

text \<open>\<^verbatim>\<open>Array.prototype.join\<close>.\<close>

fun join :: "string \<Rightarrow> string list \<Rightarrow> string" where
  "join sep [] = []"
| "join sep [x] = x"
| "join sep (x # y # ys) = x @ sep @ join sep (y # ys)"

text \<open>Decimal rendering of an integer, as a template literal or \<^verbatim>\<open>JSON.stringify\<close> prints it.\<close>

definition digit_char :: "nat \<Rightarrow> char" where
  "digit_char d = ''0123456789'' ! d"

function show_nat :: "nat \<Rightarrow> string" where
  "show_nat n = (if n < 10 then [digit_char n] else show_nat (n div 10) @ [digit_char (n mod 10)])"
  by pat_completeness auto
termination
  by (relation "measure id") auto

declare show_nat.simps [simp del]

definition show_int :: "int \<Rightarrow> string" where
  "show_int i = (if i < 0 then CHR ''-'' # show_nat (nat (- i)) else show_nat (nat i))"

subsection \<open>JSON values and \<^verbatim>\<open>JSON.stringify\<close>\<close>

datatype json =
    JNull
  | JBool bool
  | JNum int
  | JStr string
  | JArr "json list"
  | JObj "(string \<times> json) list"

definition hex_char :: "nat \<Rightarrow> char" where
  "hex_char d = ''0123456789abcdef'' ! d"

text \<open>The escapes of \<^verbatim>\<open>JSON.stringify\<close> inside a string literal.\<close>

definition escape_char :: "char \<Rightarrow> string" where
  "escape_char c =
     (if c = dq then [bs, dq]
      else if c = bs then [bs, bs]
      else if c = CHR 0x08 then [bs, CHR ''b'']
      else if c = CHR 0x0C then [bs, CHR ''f'']
      else if c = CHR 0x0A then [bs, CHR ''n'']
      else if c = CHR 0x0D then [bs, CHR ''r'']
      else if c = CHR 0x09 then [bs, CHR ''t'']
      else if of_char c < (32::nat) then
        [bs, CHR ''u'', CHR ''0'', CHR ''0'',
         hex_char (of_char c div 16), hex_char (of_char c mod 16)]
      else [c])"

definition quote :: "string \<Rightarrow> string" where
  "quote s = dq # concat (map escape_char s) @ [dq]"

fun JSON_stringify :: "json \<Rightarrow> string" where
  "JSON_stringify JNull = ''null''"
| "JSON_stringify (JBool b) = (if b then ''true'' else ''false'')"
| "JSON_stringify (JNum n) = show_int n"
| "JSON_stringify (JStr s) = quote s"
| "JSON_stringify (JArr xs) = ''['' @ join '','' (map JSON_stringify xs) @ '']''"
| "JSON_stringify (JObj kvs) =
     ''{'' @ join '','' (map (\<lambda>(k, v). quote k @ '':'' @ JSON_stringify v) kvs) @ ''}''"

text \<open>\<^verbatim>\<open>JSON.stringify(undefined)\<close> is \<^verbatim>\<open>undefined\<close>.\<close>

definition stringify_opt :: "json option \<Rightarrow> string option" where
  "stringify_opt v = map_option JSON_stringify v"

text \<open>A value interpolated into a template literal: \<^verbatim>\<open>undefined\<close> prints as such.\<close>

definition interpolate :: "string option \<Rightarrow> string" where
  "interpolate v = (case v of None \<Rightarrow> ''undefined'' | Some s \<Rightarrow> s)"

text \<open>JavaScript truthiness of a JSON value.\<close>

fun truthy :: "json \<Rightarrow> bool" where
  "truthy JNull = False"
| "truthy (JBool b) = b"
| "truthy (JNum n) = (n \<noteq> 0)"
| "truthy (JStr s) = (s \<noteq> [])"
| "truthy (JArr xs) = True"
| "truthy (JObj kvs) = True"

subsection \<open>Objects as property lists\<close>

type_synonym 'v obj = "(string \<times> 'v) list"

text \<open>\<^verbatim>\<open>o[k] = v\<close>: an existing property keeps its place, a new one is appended.\<close>

fun obj_set :: "'v obj \<Rightarrow> string \<Rightarrow> 'v \<Rightarrow> 'v obj" where
  "obj_set [] k v = [(k, v)]"
| "obj_set ((k', v') # ps) k v = (if k' = k then (k, v) # ps else (k', v') # obj_set ps k v)"

text \<open>\<^verbatim>\<open>o[k]\<close>, with \<open>None\<close> for \<^verbatim>\<open>undefined\<close>.\<close>

definition obj_get :: "'v obj \<Rightarrow> string \<Rightarrow> 'v option" where
  "obj_get ps k = map_of ps k"

text \<open>The spread \<^verbatim>\<open>{ ...a, ...b }\<close>: the properties of \<open>b\<close> are assigned onto a copy of \<open>a\<close>.\<close>

fun spread :: "'v obj \<Rightarrow> 'v obj \<Rightarrow> 'v obj" where
  "spread a [] = a"
| "spread a ((k, v) # ps) = spread (obj_set a k v) ps"

subsection \<open>The data model\<close>

text \<open>\<^verbatim>\<open>string | string[]\<close>, the type of \<^verbatim>\<open>bodyContains\<close> and \<^verbatim>\<open>bodyNotContains\<close>.\<close>

datatype str_or_list = One string | Many "string list"

text \<open>The \<^verbatim>\<open>expect\<close> object of a \<^verbatim>\<open>TestCase\<close>; every member is optional.\<close>

record expectation =
  e_status :: "int option"
  e_body :: "json obj option"
  e_bodyContains :: "str_or_list option"
  e_bodyNotContains :: "str_or_list option"
  e_headerContains :: "string obj option"

text \<open>
  \<^verbatim>\<open>interface TestCase\<close>. The member \<^verbatim>\<open>expect\<close> is required by the interface and the
  runner reads it unguarded; \<^verbatim>\<open>method\<close> is read as \<^verbatim>\<open>test.method || "GET"\<close>, so its
  absence is part of the model.
\<close>

record TestCase =
  t_name :: string
  t_path :: string
  t_method :: "string option"
  t_headers :: "string obj option"
  t_body :: "json option"
  t_expect :: expectation

record environment =
  env_baseUrl :: string
  env_headers :: "string obj option"

record SmokeConfig =
  c_environments :: "environment obj option"
  c_tests :: "TestCase list"

record ParsedArgs =
  a_command :: string
  a_configFile :: "string option"
  a_json :: bool
  a_env :: string
  a_parallel :: bool
  a_bail :: bool
  a_timeout :: int
  a_verbose :: bool
  a_help :: bool

text \<open>The normalized response that \<^verbatim>\<open>makeRequest\<close> resolves to.\<close>

record response =
  r_status :: int
  r_headers :: "string obj"
  r_body :: json
  r_bodyRaw :: string

record assertion =
  as_check :: string
  as_passed :: bool
  as_detail :: "string option"

text \<open>\<^verbatim>\<open>interface TestResult\<close>.\<close>

record TestResult =
  tr_name :: string
  tr_passed :: bool
  tr_status :: "int option"
  tr_expectedStatus :: "int option"
  tr_responseTime :: nat
  tr_assertions :: "assertion list"
  tr_error :: "string option"

subsection \<open>The platform\<close>

text \<open>
  What \<^verbatim>\<open>client.request\<close> is called with, and what Node reports back: the response
  (\<^verbatim>\<open>res.statusCode\<close>, \<^verbatim>\<open>res.headers\<close> with values \<^verbatim>\<open>string | string[] | undefined\<close>, and
  the concatenated chunks decoded as text) once its \<^verbatim>\<open>end\<close> event fires, an \<^verbatim>\<open>error\<close>
  event with the message of its error, or a \<^verbatim>\<open>timeout\<close> event. A URL that
  \<^verbatim>\<open>new URL\<close> rejects throws inside the promise executor and so rejects the promise
  like an error event does.
\<close>

record request =
  rq_url :: string
  rq_method :: string
  rq_headers :: "string obj"
  rq_body :: "string option"
  rq_timeout :: int

datatype header_value = Single string | Multi "string list"

record incoming =
  in_statusCode :: "int option"
  in_headers :: "header_value option obj"
  in_body :: string

datatype transport_event = ResponseEnd incoming | ErrorEvent string | TimeoutEvent

text \<open>
  The platform answers the \<open>i\<close>-th request dispatched during a run, and tells how many
  milliseconds passed on the clock (\<^verbatim>\<open>Date.now\<close>) until it settled. \<open>pf_parse\<close> is
  \<^verbatim>\<open>JSON.parse\<close>, with \<open>None\<close> where it throws.
\<close>

record platform =
  pf_parse :: "string \<Rightarrow> json option"
  pf_transport :: "nat \<Rightarrow> request \<Rightarrow> transport_event"
  pf_elapsed :: "nat \<Rightarrow> nat"

subsection \<open>\<^verbatim>\<open>makeRequest\<close>\<close>

definition user_agent :: string where
  "user_agent = ''api-smoke/1.0.0''"

text \<open>\<^verbatim>\<open>const bodyStr = body ? JSON.stringify(body) : undefined\<close>.\<close>

definition bodyStr_of :: "json option \<Rightarrow> string option" where
  "bodyStr_of body =
     (case body of
        None \<Rightarrow> None
      | Some b \<Rightarrow> if truthy b then Some (JSON_stringify b) else None)"

text \<open>A string in a boolean position: \<^verbatim>\<open>undefined\<close> and the empty string are falsy.\<close>

definition str_truthy :: "string option \<Rightarrow> bool" where
  "str_truthy s = (case s of None \<Rightarrow> False | Some t \<Rightarrow> t \<noteq> [])"

text \<open>\<^verbatim>\<open>a || b\<close> for a string \<open>a\<close> that may be \<^verbatim>\<open>undefined\<close>.\<close>

definition str_or :: "string option \<Rightarrow> string \<Rightarrow> string" where
  "str_or a b = (case a of None \<Rightarrow> b | Some s \<Rightarrow> if s \<noteq> [] then s else b)"

text \<open>The request headers: the client's \<^verbatim>\<open>User-Agent\<close>, the caller's headers spread over
  it, and a \<^verbatim>\<open>Content-Type\<close> when a body is sent without one.\<close>

definition reqHeaders_of :: "string obj \<Rightarrow> string option \<Rightarrow> string obj" where
  "reqHeaders_of headers bodyStr =
     (let reqHeaders = spread [(''User-Agent'', user_agent)] headers
      in if str_truthy bodyStr \<and> \<not> str_truthy (obj_get reqHeaders ''Content-Type'')
         then obj_set reqHeaders ''Content-Type'' ''application/json''
         else reqHeaders)"

definition build_request :: "string \<Rightarrow> string \<Rightarrow> string obj \<Rightarrow> json option \<Rightarrow> int \<Rightarrow> request" where
  "build_request url method headers body timeout =
     (let bodyStr = bodyStr_of body
      in \<lparr> rq_url = url, rq_method = method, rq_headers = reqHeaders_of headers bodyStr,
           rq_body = bodyStr, rq_timeout = timeout \<rparr>)"

text \<open>The loop over \<^verbatim>\<open>Object.entries(res.headers)\<close>: a value is kept when it is truthy
  (an array always is, the empty string is not), an array joined with a comma.\<close>

fun collect_headers :: "header_value option obj \<Rightarrow> string obj \<Rightarrow> string obj" where
  "collect_headers [] responseHeaders = responseHeaders"
| "collect_headers ((key, val) # rest) responseHeaders =
     collect_headers rest
       (case val of
          None \<Rightarrow> responseHeaders
        | Some (Single s) \<Rightarrow> if s \<noteq> [] then obj_set responseHeaders key s else responseHeaders
        | Some (Multi ss) \<Rightarrow> obj_set responseHeaders key (join '', '' ss))"

text \<open>The \<^verbatim>\<open>end\<close> handler of the response.\<close>

definition on_end :: "(string \<Rightarrow> json option) \<Rightarrow> incoming \<Rightarrow> response" where
  "on_end parse res =
     (let rawBody = in_body res;
          parsedBody = (case parse rawBody of None \<Rightarrow> JStr rawBody | Some v \<Rightarrow> v);
          responseHeaders = collect_headers (in_headers res) []
      in \<lparr> r_status = (case in_statusCode res of None \<Rightarrow> 0 | Some s \<Rightarrow> s),
           r_headers = responseHeaders, r_body = parsedBody, r_bodyRaw = rawBody \<rparr>)"

text \<open>The promise of \<^verbatim>\<open>makeRequest\<close> settles with \<open>Inr\<close> a response or \<open>Inl\<close> the message of
  the error it rejects with.\<close>

definition makeRequest ::
  "platform \<Rightarrow> nat \<Rightarrow> string \<Rightarrow> string \<Rightarrow> string obj \<Rightarrow> json option \<Rightarrow> int \<Rightarrow> string + response" where
  "makeRequest pf i url method headers body timeout =
     (case pf_transport pf i (build_request url method headers body timeout) of
        ResponseEnd res \<Rightarrow> Inr (on_end (pf_parse pf) res)
      | ErrorEvent message \<Rightarrow> Inl message
      | TimeoutEvent \<Rightarrow> Inl (''Timeout after '' @ show_int timeout @ ''ms''))"

subsection \<open>\<^verbatim>\<open>checkAssertions\<close>\<close>

text \<open>
  \<^verbatim>\<open>typeof response.body === "object" ? response.body?.[key] : undefined\<close>. The type test
  holds for \<^verbatim>\<open>null\<close> (where the optional chain gives \<^verbatim>\<open>undefined\<close>), for objects and for
  arrays; an array has its elements under their decimal indices and its \<^verbatim>\<open>length\<close>.
\<close>

definition array_get :: "json list \<Rightarrow> string \<Rightarrow> json option" where
  "array_get xs key =
     (if key = ''length'' then Some (JNum (int (length xs)))
      else case find (\<lambda>i. show_nat i = key) [0..<length xs] of
             None \<Rightarrow> None
           | Some i \<Rightarrow> Some (xs ! i))"

fun body_field :: "json \<Rightarrow> string \<Rightarrow> json option" where
  "body_field (JObj kvs) key = obj_get kvs key"
| "body_field (JArr xs) key = array_get xs key"
| "body_field JNull key = None"
| "body_field (JBool b) key = None"
| "body_field (JNum n) key = None"
| "body_field (JStr s) key = None"

definition status_check :: "response \<Rightarrow> int \<Rightarrow> assertion" where
  "status_check response expected =
     (let passed = (r_status response = expected)
      in \<lparr> as_check = ''Status is '' @ show_int expected,
           as_passed = passed,
           as_detail = (if passed then None else Some (''Got '' @ show_int (r_status response))) \<rparr>)"

definition body_field_check :: "response \<Rightarrow> string \<Rightarrow> json \<Rightarrow> assertion" where
  "body_field_check response key expected =
     (let actual = body_field (r_body response) key;
          passed = (stringify_opt actual = Some (JSON_stringify expected))
      in \<lparr> as_check = ''body.'' @ key @ '' === '' @ JSON_stringify expected,
           as_passed = passed,
           as_detail = (if passed then None
                        else Some (''Got '' @ interpolate (stringify_opt actual))) \<rparr>)"

definition contains_check :: "response \<Rightarrow> string \<Rightarrow> assertion" where
  "contains_check response term =
     \<lparr> as_check = ''Body contains '' @ [dq] @ term @ [dq],
       as_passed = str_includes (r_bodyRaw response) term,
       as_detail = None \<rparr>"

definition not_contains_check :: "response \<Rightarrow> string \<Rightarrow> assertion" where
  "not_contains_check response term =
     \<lparr> as_check = ''Body doesn't contain '' @ [dq] @ term @ [dq],
       as_passed = (\<not> str_includes (r_bodyRaw response) term),
       as_detail = None \<rparr>"

text \<open>
  The header check. \<^verbatim>\<open>actual ? actual.includes(expected) : false\<close> takes an empty value
  for a missing one. The detail reads \<^verbatim>\<open>`Got "${actual || "(missing)}"`\<close> in the source,
  where the substitution is not closed; the string literal is taken as it is lexed,
  \<^verbatim>\<open>(missing)}\<close>, and no statement below depends on what follows \<^verbatim>\<open>Got "\<close>.
\<close>

definition header_check :: "response \<Rightarrow> string \<Rightarrow> string \<Rightarrow> assertion" where
  "header_check response key expected =
     (let actual = obj_get (r_headers response) (toLowerCase key);
          passed = (case actual of
                      None \<Rightarrow> False
                    | Some a \<Rightarrow> if a \<noteq> [] then str_includes a expected else False)
      in \<lparr> as_check = ''Header '' @ key @ '' contains '' @ [dq] @ expected @ [dq],
           as_passed = passed,
           as_detail = (if passed then None
                        else Some (''Got '' @ [dq] @
                               str_or actual ''(missing)}'')) \<rparr>)"

text \<open>The four \<^verbatim>\<open>for ... of\<close> loops, each pushing one outcome per entry.\<close>

fun body_field_loop :: "response \<Rightarrow> json obj \<Rightarrow> assertion list \<Rightarrow> assertion list" where
  "body_field_loop response [] results = results"
| "body_field_loop response ((key, expected) # rest) results =
     body_field_loop response rest (results @ [body_field_check response key expected])"

fun contains_loop :: "response \<Rightarrow> string list \<Rightarrow> assertion list \<Rightarrow> assertion list" where
  "contains_loop response [] results = results"
| "contains_loop response (term # rest) results =
     contains_loop response rest (results @ [contains_check response term])"

fun not_contains_loop :: "response \<Rightarrow> string list \<Rightarrow> assertion list \<Rightarrow> assertion list" where
  "not_contains_loop response [] results = results"
| "not_contains_loop response (term # rest) results =
     not_contains_loop response rest (results @ [not_contains_check response term])"

fun header_loop :: "response \<Rightarrow> string obj \<Rightarrow> assertion list \<Rightarrow> assertion list" where
  "header_loop response [] results = results"
| "header_loop response ((key, expected) # rest) results =
     header_loop response rest (results @ [header_check response key expected])"

text \<open>\<^verbatim>\<open>if (test.expect.bodyContains)\<close>: an array is truthy, the empty string is not.\<close>

fun terms_truthy :: "str_or_list \<Rightarrow> bool" where
  "terms_truthy (One s) = (s \<noteq> [])"
| "terms_truthy (Many ss) = True"

text \<open>\<^verbatim>\<open>Array.isArray(x) ? x : [x]\<close>.\<close>

fun terms_list :: "str_or_list \<Rightarrow> string list" where
  "terms_list (One s) = [s]"
| "terms_list (Many ss) = ss"

definition checkAssertions :: "TestCase \<Rightarrow> response \<Rightarrow> assertion list" where
  "checkAssertions test response =
     (let expect = t_expect test;
          results = [];
          results = (case e_status expect of
                       None \<Rightarrow> results
                     | Some expected \<Rightarrow> results @ [status_check response expected]);
          results = (case e_body expect of
                       None \<Rightarrow> results
                     | Some entries \<Rightarrow> body_field_loop response entries results);
          results = (case e_bodyContains expect of
                       None \<Rightarrow> results
                     | Some terms \<Rightarrow>
                         if terms_truthy terms
                         then contains_loop response (terms_list terms) results
                         else results);
          results = (case e_bodyNotContains expect of
                       None \<Rightarrow> results
                     | Some terms \<Rightarrow>
                         if terms_truthy terms
                         then not_contains_loop response (terms_list terms) results
                         else results);
          results = (case e_headerContains expect of
                       None \<Rightarrow> results
                     | Some entries \<Rightarrow> header_loop response entries results)
      in results)"

subsection \<open>\<^verbatim>\<open>runTest\<close>\<close>

text \<open>\<^verbatim>\<open>test.expect.status || null\<close>: a status of 0 is falsy.\<close>

definition expectedStatus_of :: "int option \<Rightarrow> int option" where
  "expectedStatus_of s = (case s of None \<Rightarrow> None | Some n \<Rightarrow> if n = 0 then None else Some n)"

text \<open>\<^verbatim>\<open>test.method || "GET"\<close>.\<close>

definition method_of :: "string option \<Rightarrow> string" where
  "method_of m = str_or m ''GET''"

text \<open>\<^verbatim>\<open>{ ...envHeaders, ...(test.headers || {}) }\<close>.\<close>

definition merge_headers :: "string obj \<Rightarrow> string obj option \<Rightarrow> string obj" where
  "merge_headers envHeaders headers =
     spread (spread [] envHeaders) (case headers of None \<Rightarrow> [] | Some h \<Rightarrow> h)"

text \<open>
  The \<open>i\<close>-th test run. The result starts out failed, with no status, no outcomes and
  no error; the \<^verbatim>\<open>try\<close> branch fills it from the response, the \<^verbatim>\<open>catch\<close> branch from the
  message of the rejection.
\<close>

definition runTest ::
  "platform \<Rightarrow> nat \<Rightarrow> TestCase \<Rightarrow> string \<Rightarrow> string obj \<Rightarrow> int \<Rightarrow> TestResult" where
  "runTest pf i test baseUrl envHeaders timeout =
     (let result = \<lparr> tr_name = t_name test, tr_passed = False, tr_status = None,
                      tr_expectedStatus = expectedStatus_of (e_status (t_expect test)),
                      tr_responseTime = 0, tr_assertions = [], tr_error = None \<rparr>;
          url = baseUrl @ t_path test;
          headers = merge_headers envHeaders (t_headers test)
      in case makeRequest pf i url (method_of (t_method test)) headers (t_body test) timeout of
           Inr response \<Rightarrow>
             (let assertions = checkAssertions test response
              in result\<lparr> tr_responseTime := pf_elapsed pf i,
                         tr_status := Some (r_status response),
                         tr_assertions := assertions,
                         tr_passed := list_all as_passed assertions \<rparr>)
         | Inl message \<Rightarrow>
             result\<lparr> tr_responseTime := pf_elapsed pf i,
                      tr_error := Some message,
                      tr_passed := False \<rparr>)"

subsection \<open>\<^verbatim>\<open>loadConfig\<close> and \<^verbatim>\<open>cmdRun\<close>\<close>

text \<open>
  What the file system and \<^verbatim>\<open>yaml.load\<close> give for a path: no such file, a document
  that the parser throws on, a document without a \<^verbatim>\<open>tests\<close> array, or a configuration.
\<close>

datatype config_file = NotFound | Unparsable | NoTests | Loaded SmokeConfig

text \<open>Both guards of \<^verbatim>\<open>loadConfig\<close> leave the process with status 1, as does the handler
  of \<^verbatim>\<open>main\<close> for an exception of the parser; \<open>Inl\<close> carries that status.\<close>

definition loadConfig :: "(string \<Rightarrow> config_file) \<Rightarrow> string \<Rightarrow> int + SmokeConfig" where
  "loadConfig files filePath =
     (case files filePath of
        NotFound \<Rightarrow> Inl 1
      | Unparsable \<Rightarrow> Inl 1
      | NoTests \<Rightarrow> Inl 1
      | Loaded config \<Rightarrow> Inr config)"

text \<open>\<^verbatim>\<open>config.environments?.[name]\<close>.\<close>

definition lookup_env :: "SmokeConfig \<Rightarrow> string \<Rightarrow> environment option" where
  "lookup_env config name =
     (case c_environments config of None \<Rightarrow> None | Some envs \<Rightarrow> obj_get envs name)"

text \<open>\<^verbatim>\<open>config.environments?.[args.env] || config.environments?.["default"]\<close>.\<close>

definition resolve_env :: "SmokeConfig \<Rightarrow> string \<Rightarrow> environment option" where
  "resolve_env config name =
     (case lookup_env config name of
        Some env \<Rightarrow> Some env
      | None \<Rightarrow> lookup_env config ''default'')"

text \<open>\<^verbatim>\<open>env?.baseUrl || ""\<close> and \<^verbatim>\<open>env?.headers || {}\<close>.\<close>

definition baseUrl_of :: "environment option \<Rightarrow> string" where
  "baseUrl_of env = str_or (map_option env_baseUrl env) []"

definition envHeaders_of :: "environment option \<Rightarrow> string obj" where
  "envHeaders_of env =
     (case env of
        None \<Rightarrow> []
      | Some e \<Rightarrow> (case env_headers e of None \<Rightarrow> [] | Some h \<Rightarrow> h))"

text \<open>
  The sequential branch: the loop over \<^verbatim>\<open>config.tests\<close>, pushing each result and
  leaving at the first one that did not pass when \<^verbatim>\<open>bail\<close> is set. \<open>i\<close> counts the
  requests dispatched so far.
\<close>

fun run_sequential ::
  "platform \<Rightarrow> bool \<Rightarrow> string \<Rightarrow> string obj \<Rightarrow> int \<Rightarrow> nat \<Rightarrow> TestCase list \<Rightarrow>
   TestResult list \<Rightarrow> TestResult list" where
  "run_sequential pf bail baseUrl envHeaders timeout i [] results = results"
| "run_sequential pf bail baseUrl envHeaders timeout i (test # rest) results =
     (let result = runTest pf i test baseUrl envHeaders timeout;
          results = results @ [result]
      in if bail \<and> \<not> tr_passed result then results
         else run_sequential pf bail baseUrl envHeaders timeout (Suc i) rest results)"

text \<open>
  The parallel branch. \<^verbatim>\<open>config.tests.map\<close> starts every test in authored order, so the
  \<open>i\<close>-th test makes the \<open>i\<close>-th request. \<^verbatim>\<open>Promise.all\<close> keeps an array with one slot
  per promise; a promise that settles stores its value in the slot of its own index,
  and the array is delivered once every slot is filled. \<open>order\<close> lists the indices
  of the promises in the order in which they settle.
\<close>

definition dispatch_all ::
  "platform \<Rightarrow> string \<Rightarrow> string obj \<Rightarrow> int \<Rightarrow> TestCase list \<Rightarrow> TestResult list" where
  "dispatch_all pf baseUrl envHeaders timeout tests =
     map (\<lambda>(i, test). runTest pf i test baseUrl envHeaders timeout) (zip [0..<length tests] tests)"

fun settle :: "nat list \<Rightarrow> 'a list \<Rightarrow> 'a option list \<Rightarrow> 'a option list" where
  "settle [] promises slots = slots"
| "settle (i # order) promises slots =
     settle order promises
       (if i < length promises then slots[i := Some (promises ! i)] else slots)"

definition Promise_all :: "nat list \<Rightarrow> 'a list \<Rightarrow> 'a list option" where
  "Promise_all order promises =
     those (settle order promises (replicate (length promises) None))"

text \<open>The report that \<^verbatim>\<open>--json\<close> prints (without the wall-clock duration).\<close>

record report =
  rp_environment :: string
  rp_baseUrl :: string
  rp_total :: nat
  rp_passed :: nat
  rp_failed :: nat
  rp_results :: "TestResult list"

definition make_report :: "string \<Rightarrow> string \<Rightarrow> TestResult list \<Rightarrow> report" where
  "make_report env baseUrl results =
     \<lparr> rp_environment = env, rp_baseUrl = baseUrl, rp_total = length results,
       rp_passed = length (filter tr_passed results),
       rp_failed = length (filter (\<lambda>r. \<not> tr_passed r) results),
       rp_results = results \<rparr>"

text \<open>\<^verbatim>\<open>if (results.some((r) => !r.passed)) process.exit(1)\<close>; a process that is not made
  to exit ends with status 0.\<close>

definition exit_code :: "TestResult list \<Rightarrow> int" where
  "exit_code results = (if list_ex (\<lambda>r. \<not> tr_passed r) results then 1 else 0)"

text \<open>
  A run of \<^verbatim>\<open>cmdRun\<close> leaves the process before any test with a status, never gets
  past \<^verbatim>\<open>await Promise.all\<close>, or completes with a report and an exit status.
\<close>

datatype run = Exited int | Pending | Completed report int

definition cmdRun :: "platform \<Rightarrow> (string \<Rightarrow> config_file) \<Rightarrow> nat list \<Rightarrow> ParsedArgs \<Rightarrow> run" where
  "cmdRun pf files order args =
     (case a_configFile args of
        None \<Rightarrow> Exited 1
      | Some configFile \<Rightarrow>
          (case loadConfig files configFile of
             Inl status \<Rightarrow> Exited status
           | Inr config \<Rightarrow>
               (let env = resolve_env config (a_env args);
                    baseUrl = baseUrl_of env;
                    envHeaders = envHeaders_of env
                in if a_parallel args
                   then (case Promise_all order
                                (dispatch_all pf baseUrl envHeaders (a_timeout args) (c_tests config)) of
                           None \<Rightarrow> Pending
                         | Some settled \<Rightarrow>
                             Completed (make_report (a_env args) baseUrl ([] @ settled))
                               (exit_code ([] @ settled)))
                   else (let results = run_sequential pf (a_bail args) baseUrl envHeaders
                                         (a_timeout args) 0 (c_tests config) []
                         in Completed (make_report (a_env args) baseUrl results)
                              (exit_code results)))))"

subsection \<open>Notions used in the statements\<close>

text \<open>The request that \<^verbatim>\<open>runTest\<close> hands to \<^verbatim>\<open>makeRequest\<close> for a test.\<close>

definition test_request :: "TestCase \<Rightarrow> string \<Rightarrow> string obj \<Rightarrow> int \<Rightarrow> request" where
  "test_request test baseUrl envHeaders timeout =
     build_request (baseUrl @ t_path test) (method_of (t_method test))
       (merge_headers envHeaders (t_headers test)) (t_body test) timeout"

text \<open>The empty expectation set.\<close>

definition no_expectations :: expectation where
  "no_expectations =
     \<lparr> e_status = None, e_body = None, e_bodyContains = None, e_bodyNotContains = None,
       e_headerContains = None \<rparr>"



text \<open>The verdicts of the tests of a list, the first of them making the \<open>i\<close>-th request.\<close>

definition verdicts_from ::
  "platform \<Rightarrow> string \<Rightarrow> string obj \<Rightarrow> int \<Rightarrow> nat \<Rightarrow> TestCase list \<Rightarrow> TestResult list" where
  "verdicts_from pf baseUrl envHeaders timeout i tests =
     map (\<lambda>(j, test). runTest pf j test baseUrl envHeaders timeout)
       (zip [i..<i + length tests] tests)"

subsection \<open>Example data\<close>

text \<open>A service that answers every request with status 503, and one that never answers.\<close>

definition down_reply :: incoming where
  "down_reply = \<lparr> in_statusCode = Some 503, in_headers = [], in_body = ''down'' \<rparr>"

definition pf_ok :: platform where
  "pf_ok = \<lparr> pf_parse = (\<lambda>s. None), pf_transport = (\<lambda>i rq. ResponseEnd down_reply),
             pf_elapsed = (\<lambda>i. 7) \<rparr>"

definition pf_silent :: platform where
  "pf_silent = \<lparr> pf_parse = (\<lambda>s. None), pf_transport = (\<lambda>i rq. TimeoutEvent),
                 pf_elapsed = (\<lambda>i. 100) \<rparr>"

definition bare_test :: TestCase where
  "bare_test = \<lparr> t_name = ''Ping'', t_path = ''/ping'', t_method = None, t_headers = None,
                 t_body = None, t_expect = no_expectations \<rparr>"

definition health_test :: TestCase where
  "health_test = \<lparr> t_name = ''Health'', t_path = ''/health'', t_method = Some ''GET'',
                   t_headers = None, t_body = None,
                   t_expect = no_expectations \<lparr> e_status := Some 200 \<rparr> \<rparr>"

definition config_ex :: SmokeConfig where
  "config_ex =
     \<lparr> c_environments = Some [(''staging'', \<lparr> env_baseUrl = ''http://s'', env_headers = None \<rparr>)],
       c_tests = [bare_test, health_test, bare_test] \<rparr>"

definition files_ex :: "string \<Rightarrow> config_file" where
  "files_ex path = (if path = ''smoke.yaml'' then Loaded config_ex else NotFound)"

definition args_ex :: ParsedArgs where
  "args_ex = \<lparr> a_command = ''run'', a_configFile = Some ''smoke.yaml'', a_json = False,
               a_env = ''prod'', a_parallel = False, a_bail = True, a_timeout = 10000,
               a_verbose = False, a_help = False \<rparr>"



subsection \<open>Notions for the analysis of \<^verbatim>\<open>JSON.stringify\<close>\<close>












section \<open>Auxiliary facts\<close>

lemma checkAssertions_none:
  "t_expect test = no_expectations \<Longrightarrow> checkAssertions test response = []"
  by (simp add: checkAssertions_def no_expectations_def)

lemma makeRequest_rejects_iff:
  "makeRequest pf i url method headers body timeout = Inl message \<longleftrightarrow>
     pf_transport pf i (build_request url method headers body timeout) = ErrorEvent message
   \<or> (pf_transport pf i (build_request url method headers body timeout) = TimeoutEvent
      \<and> message = ''Timeout after '' @ show_int timeout @ ''ms'')"
  by (auto simp: makeRequest_def split: transport_event.splits)

lemma runTest_passed_iff:
  "tr_passed (runTest pf i t b h to) \<longleftrightarrow>
     tr_error (runTest pf i t b h to) = None \<and> list_all as_passed (tr_assertions (runTest pf i t b h to))"
  by (cases "makeRequest pf i (b @ t_path t) (method_of (t_method t))
                (merge_headers h (t_headers t)) (t_body t) to")
     (simp_all add: runTest_def Let_def)

lemma verdicts_from_Nil [simp]: "verdicts_from pf b h to i [] = []"
  by (simp add: verdicts_from_def)

lemma verdicts_from_Cons [simp]:
  "verdicts_from pf b h to i (t # ts) = runTest pf i t b h to # verdicts_from pf b h to (Suc i) ts"
proof -
  have "[i..<i + length (t # ts)] = i # [Suc i..<Suc i + length ts]"
    by (simp add: upt_conv_Cons del: upt_Suc)
  then show ?thesis by (simp add: verdicts_from_def del: upt_Suc)
qed

lemma length_verdicts_from [simp]: "length (verdicts_from pf b h to i ts) = length ts"
  by (simp add: verdicts_from_def)

lemma verdicts_from_nth:
  "k < length ts \<Longrightarrow> verdicts_from pf b h to i ts ! k = runTest pf (i + k) (ts ! k) b h to"
  by (simp add: verdicts_from_def)

lemma dispatch_all_verdicts: "dispatch_all pf b h to ts = verdicts_from pf b h to 0 ts"
  by (simp add: dispatch_all_def verdicts_from_def)

lemma run_sequential_acc:
  "run_sequential pf bail b h to i ts acc = acc @ run_sequential pf bail b h to i ts []"
proof (induction ts arbitrary: i acc)
  case Nil
  show ?case by simp
next
  case (Cons t ts)
  show ?case
    using Cons.IH [of "Suc i" "acc @ [runTest pf i t b h to]"]
          Cons.IH [of "Suc i" "[runTest pf i t b h to]"]
    by (simp add: Let_def)
qed

lemma run_sequential_no_bail:
  "run_sequential pf False b h to i ts [] = verdicts_from pf b h to i ts"
proof (induction ts arbitrary: i)
  case Nil
  show ?case by simp
next
  case (Cons t ts)
  show ?case
    using Cons.IH [of "Suc i"] run_sequential_acc [of pf False b h to "Suc i" ts "[runTest pf i t b h to]"]
    by (simp add: Let_def)
qed

lemma run_sequential_bail:
  "run_sequential pf True b h to i ts [] =
     take (Suc (length (takeWhile tr_passed (verdicts_from pf b h to i ts))))
       (verdicts_from pf b h to i ts)"
proof (induction ts arbitrary: i)
  case Nil
  show ?case by simp
next
  case (Cons t ts)
  show ?case
    using Cons.IH [of "Suc i"] run_sequential_acc [of pf True b h to "Suc i" ts "[runTest pf i t b h to]"]
    by (simp add: Let_def)
qed

lemma those_map_Some: "those (map Some xs) = Some xs"
  by (induction xs) simp_all

lemma those_None: "None \<in> set xs \<Longrightarrow> those xs = None"
  by (induction xs) (auto split: option.splits)

lemma length_settle [simp]: "length (settle order ps slots) = length slots"
  by (induction order arbitrary: slots) simp_all

lemma settle_nth:
  "length slots = length ps \<Longrightarrow> j < length ps \<Longrightarrow>
   settle order ps slots ! j = (if j \<in> set order then Some (ps ! j) else slots ! j)"
proof (induction order arbitrary: slots)
  case Nil
  show ?case by simp
next
  case (Cons i order)
  show ?case
  proof (cases "i < length ps")
    case True
    with Cons.prems Cons.IH [of "slots[i := Some (ps ! i)]"] show ?thesis
      by (auto simp: nth_list_update)
  next
    case False
    with Cons.prems Cons.IH [of slots] show ?thesis by auto
  qed
qed

lemma Promise_all_eq:
  "Promise_all order ps = (if {..<length ps} \<subseteq> set order then Some ps else None)"
proof (cases "{..<length ps} \<subseteq> set order")
  case True
  have "settle order ps (replicate (length ps) None) = map Some ps"
    using True by (intro nth_equalityI) (auto simp: settle_nth)
  with True show ?thesis by (simp add: Promise_all_def those_map_Some)
next
  case False
  then obtain j where j: "j < length ps" "j \<notin> set order" by auto
  then have "settle order ps (replicate (length ps) None) ! j = None"
    by (simp add: settle_nth)
  then have "None \<in> set (settle order ps (replicate (length ps) None))"
    using j(1) by (metis length_replicate length_settle nth_mem)
  with False show ?thesis by (simp add: Promise_all_def those_None)
qed


lemma cmdRun_sequential:
  assumes "a_configFile args = Some f" and "loadConfig files f = Inr config" and "\<not> a_parallel args"
  shows "cmdRun pf files order args =
     (let env = resolve_env config (a_env args);
          results = run_sequential pf (a_bail args) (baseUrl_of env) (envHeaders_of env)
                      (a_timeout args) 0 (c_tests config) []
      in Completed (make_report (a_env args) (baseUrl_of env) results) (exit_code results))"
  using assms by (simp add: cmdRun_def Let_def)

lemma cmdRun_parallel:
  assumes "a_configFile args = Some f" and "loadConfig files f = Inr config" and "a_parallel args"
  shows "cmdRun pf files order args =
     (let env = resolve_env config (a_env args);
          results = dispatch_all pf (baseUrl_of env) (envHeaders_of env) (a_timeout args) (c_tests config)
      in if {..<length (c_tests config)} \<subseteq> set order
         then Completed (make_report (a_env args) (baseUrl_of env) results) (exit_code results)
         else Pending)"
  using assms by (simp add: cmdRun_def Let_def Promise_all_eq dispatch_all_def)

lemma dispatch_all_nth:
  "k < length ts \<Longrightarrow> dispatch_all pf b h to ts ! k = runTest pf k (ts ! k) b h to"
  by (simp add: dispatch_all_verdicts verdicts_from_nth)

lemma length_dispatch_all [simp]: "length (dispatch_all pf b h to ts) = length ts"
  by (simp add: dispatch_all_def)

lemma verdicts_from_runTest:
  "r \<in> set (verdicts_from pf b h to i ts) \<Longrightarrow> \<exists>j t. r = runTest pf j t b h to"
  by (auto simp: verdicts_from_def)

lemma run_sequential_runTest:
  "r \<in> set (run_sequential pf bail b h to i ts []) \<Longrightarrow> \<exists>j t. r = runTest pf j t b h to"
proof (cases bail)
  case True
  assume "r \<in> set (run_sequential pf bail b h to i ts [])"
  with True have "r \<in> set (verdicts_from pf b h to i ts)"
    by (auto simp: run_sequential_bail dest: in_set_takeD)
  then show ?thesis by (rule verdicts_from_runTest)
next
  case False
  assume "r \<in> set (run_sequential pf bail b h to i ts [])"
  with False have "r \<in> set (verdicts_from pf b h to i ts)"
    by (simp add: run_sequential_no_bail)
  then show ?thesis by (rule verdicts_from_runTest)
qed

lemma cmdRun_results_runTest:
  assumes "cmdRun pf files order args = Completed rep code" and "r \<in> set (rp_results rep)"
  shows "\<exists>j t b h to. r = runTest pf j t b h to"
proof -
  from assms(1) obtain f config where f: "a_configFile args = Some f" "loadConfig files f = Inr config"
    by (auto simp: cmdRun_def split: option.splits sum.splits)
  show ?thesis
  proof (cases "a_parallel args")
    case True
    from cmdRun_parallel [OF f True, of pf order] assms
    have "r \<in> set (dispatch_all pf (baseUrl_of (resolve_env config (a_env args)))
                 (envHeaders_of (resolve_env config (a_env args))) (a_timeout args) (c_tests config))"
      by (auto simp: Let_def make_report_def split: if_splits)
    then show ?thesis
      unfolding dispatch_all_verdicts by (blast dest: verdicts_from_runTest)
  next
    case False
    from cmdRun_sequential [OF f False, of pf order] assms
    have "r \<in> set (run_sequential pf (a_bail args) (baseUrl_of (resolve_env config (a_env args)))
                 (envHeaders_of (resolve_env config (a_env args))) (a_timeout args) 0 (c_tests config) [])"
      by (auto simp: Let_def make_report_def)
    then show ?thesis by (blast dest: run_sequential_runTest)
  qed
qed

lemma cmdRun_exit_code:
  assumes "cmdRun pf files order args = Completed rep code"
  shows "code = exit_code (rp_results rep) \<and> rp_failed rep = length (filter (\<lambda>r. \<not> tr_passed r) (rp_results rep))"
  using assms
  by (auto simp: cmdRun_def Let_def make_report_def
           split: option.splits sum.splits if_splits)






lemma obj_get_obj_set:
  "obj_get (obj_set ps k v) k' = (if k' = k then Some v else obj_get ps k')"
  by (induction ps) (auto simp: obj_get_def)

lemma obj_get_spread_absent:
  "k \<notin> fst ` set b \<Longrightarrow> obj_get (spread a b) k = obj_get a k"
  by (induction b arbitrary: a) (auto simp: obj_get_obj_set)

lemma obj_get_spread_present:
  "k \<in> fst ` set b \<Longrightarrow> \<exists>v. obj_get (spread a b) k = Some v \<and> (k, v) \<in> set b"
proof (induction b arbitrary: a)
  case Nil
  then show ?case by simp
next
  case (Cons p b)
  obtain k' v' where p: "p = (k', v')" by (cases p)
  show ?case
  proof (cases "k \<in> fst ` set b")
    case True
    from Cons.IH [OF True, of "obj_set a k' v'"] show ?thesis by (auto simp: p)
  next
    case False
    with Cons.prems have "k' = k" by (auto simp: p)
    with False show ?thesis by (simp add: p obj_get_spread_absent obj_get_obj_set)
  qed
qed

lemma reqHeaders_user_agent:
  "\<exists>v. obj_get (reqHeaders_of headers bodyStr) ''User-Agent'' = Some v \<and>
       (if ''User-Agent'' \<in> fst ` set headers then (''User-Agent'', v) \<in> set headers
        else v = user_agent)"
proof (cases "''User-Agent'' \<in> fst ` set headers")
  case True
  from obj_get_spread_present [OF True, of "[(''User-Agent'', user_agent)]"] True
  show ?thesis by (auto simp: reqHeaders_of_def Let_def obj_get_obj_set)
next
  case False
  then have "obj_get (spread [(''User-Agent'', user_agent)] headers) ''User-Agent''
             = obj_get [(''User-Agent'', user_agent)] ''User-Agent''"
    by (rule obj_get_spread_absent)
  then have "obj_get (spread [(''User-Agent'', user_agent)] headers) ''User-Agent'' = Some user_agent"
    by (simp add: obj_get_def)
  with False show ?thesis by (auto simp: reqHeaders_of_def Let_def obj_get_obj_set)
qed




subsection \<open>\<^verbatim>\<open>JSON.stringify\<close> determines the value\<close>





























section \<open>Properties of the runner\<close>

text \<open>
  C1. A test whose expectation set is empty passes whenever its request completes with a
  response: the list of outcomes is empty, the conjunction over it holds, and no error
  is recorded, whatever the status, headers and body of the response are.
\<close>

theorem no_expectations_pass:
  assumes "t_expect test = no_expectations"
    and "pf_transport pf i (test_request test baseUrl envHeaders timeout) = ResponseEnd res"
  shows "tr_passed (runTest pf i test baseUrl envHeaders timeout)
       \<and> tr_assertions (runTest pf i test baseUrl envHeaders timeout) = []
       \<and> tr_error (runTest pf i test baseUrl envHeaders timeout) = None"
  using assms
  by (simp add: runTest_def makeRequest_def test_request_def checkAssertions_none)

theorem no_expectations_pass_witness:
  "t_expect bare_test = no_expectations
   \<and> pf_transport pf_ok 0 (test_request bare_test ''http://h'' [] 100) = ResponseEnd down_reply
   \<and> tr_passed (runTest pf_ok 0 bare_test ''http://h'' [] 100)"
  using no_expectations_pass [of bare_test pf_ok 0 "''http://h''" "[]" 100 down_reply]
  by (simp add: bare_test_def pf_ok_def)

text \<open>
  C2. When the request of a test fails at the transport level, by an error event with a
  message or by a timeout, whose message is \<^verbatim>\<open>Timeout after <timeout>ms\<close>, the verdict
  carries that message as its error, has no status and no outcomes, and is not passed.
\<close>

theorem transport_failure_verdict:
  assumes "pf_transport pf i (test_request test baseUrl envHeaders timeout) = ev"
    and "ev = ErrorEvent message \<or> ev = TimeoutEvent \<and> message = ''Timeout after '' @ show_int timeout @ ''ms''"
  shows "runTest pf i test baseUrl envHeaders timeout =
           \<lparr> tr_name = t_name test, tr_passed = False, tr_status = None,
             tr_expectedStatus = expectedStatus_of (e_status (t_expect test)),
             tr_responseTime = pf_elapsed pf i, tr_assertions = [], tr_error = Some message \<rparr>"
  using assms
  by (auto simp: runTest_def makeRequest_def test_request_def)

theorem transport_failure_verdict_witness:
  "pf_transport pf_silent 0 (test_request health_test ''http://h'' [] 100) = TimeoutEvent
   \<and> runTest pf_silent 0 health_test ''http://h'' [] 100 =
       \<lparr> tr_name = ''Health'', tr_passed = False, tr_status = None, tr_expectedStatus = Some 200,
         tr_responseTime = 100, tr_assertions = [], tr_error = Some ''Timeout after 100ms'' \<rparr>"
proof -
  have ev: "pf_transport pf_silent 0 (test_request health_test ''http://h'' [] 100) = TimeoutEvent"
    by (simp add: pf_silent_def)
  have msg: "''Timeout after '' @ show_int 100 @ ''ms'' = ''Timeout after 100ms''"
    by code_simp
  have "TimeoutEvent = ErrorEvent ''Timeout after 100ms'' \<or>
        TimeoutEvent = TimeoutEvent \<and> ''Timeout after 100ms'' = ''Timeout after '' @ show_int 100 @ ''ms''"
    using msg by simp
  from transport_failure_verdict [OF ev this] ev show ?thesis
    by (simp add: health_test_def pf_silent_def expectedStatus_of_def no_expectations_def)
qed

text \<open>
  C3. In sequential mode with \<^verbatim>\<open>bail\<close> set, the run completes, and its report holds the
  verdicts of the tests in authored order up to and including the first verdict that is
  not passed: its length is the 1-based index of that verdict, or the number of tests
  when every verdict is passed, and no later test has an entry.
\<close>

theorem sequential_bail_report:
  assumes "a_configFile args = Some f" and "loadConfig files f = Inr config"
    and "\<not> a_parallel args" and "a_bail args"
  shows "\<exists>rep code. cmdRun pf files order args = Completed rep code \<and>
           (let env = resolve_env config (a_env args);
                verdicts = dispatch_all pf (baseUrl_of env) (envHeaders_of env) (a_timeout args)
                             (c_tests config);
                n = length (rp_results rep)
            in n = (if list_all tr_passed verdicts then length (c_tests config)
                    else Suc (length (takeWhile tr_passed verdicts)))
             \<and> rp_results rep = take n verdicts
             \<and> rp_total rep = n
             \<and> (\<forall>k < n - 1. tr_passed (verdicts ! k))
             \<and> (\<not> list_all tr_passed verdicts \<longrightarrow> \<not> tr_passed (verdicts ! (n - 1))))"
proof -
  define env where "env = resolve_env config (a_env args)"
  define vs where "vs = dispatch_all pf (baseUrl_of env) (envHeaders_of env) (a_timeout args) (c_tests config)"
  define rs where "rs = take (Suc (length (takeWhile tr_passed vs))) vs"
  have run: "cmdRun pf files order args = Completed (make_report (a_env args) (baseUrl_of env) rs) (exit_code rs)"
    using cmdRun_sequential [OF assms(1,2,3), of pf order] assms(4)
    by (simp add: Let_def env_def rs_def vs_def run_sequential_bail dispatch_all_verdicts)
  have len_vs: "length vs = length (c_tests config)" by (simp add: vs_def)
  have all: "length rs = length vs" "rs = vs" if "list_all tr_passed vs"
  proof -
    from that have tw: "takeWhile tr_passed vs = vs" by (simp add: list_all_iff)
    show "length rs = length vs" "rs = vs" unfolding rs_def tw by simp_all
  qed
  have some: "length rs = Suc (length (takeWhile tr_passed vs))"
             "\<not> tr_passed (vs ! length (takeWhile tr_passed vs))" if "\<not> list_all tr_passed vs"
  proof -
    have lt: "length (takeWhile tr_passed vs) < length vs"
    proof (rule ccontr)
      assume "\<not> length (takeWhile tr_passed vs) < length vs"
      with length_takeWhile_le [of tr_passed vs]
      have "length (takeWhile tr_passed vs) = length vs" by simp
      with takeWhile_eq_take [of tr_passed vs] have "takeWhile tr_passed vs = vs" by simp
      with that show False by (simp add: list_all_iff)
    qed
    then show "length rs = Suc (length (takeWhile tr_passed vs))" by (simp add: rs_def)
    from lt show "\<not> tr_passed (vs ! length (takeWhile tr_passed vs))"
      by (rule nth_length_takeWhile)
  qed
  have before: "tr_passed (vs ! k)" if "k < length rs - 1" for k
  proof -
    from that have "k < length (takeWhile tr_passed vs)" by (simp add: rs_def min_def split: if_splits)
    then have "tr_passed (takeWhile tr_passed vs ! k)" by (metis nth_mem set_takeWhileD)
    with \<open>k < length (takeWhile tr_passed vs)\<close> show ?thesis by (simp add: takeWhile_nth)
  qed
  have take: "rs = take (length rs) vs" by (simp add: rs_def min_def)
  show ?thesis
    using run all some before take len_vs
    by (auto simp: Let_def make_report_def env_def [symmetric] vs_def [symmetric])
qed

theorem sequential_bail_report_witness:
  "a_configFile args_ex = Some ''smoke.yaml'' \<and> loadConfig files_ex ''smoke.yaml'' = Inr config_ex
   \<and> \<not> a_parallel args_ex \<and> a_bail args_ex
   \<and> (\<exists>rep code. cmdRun pf_ok files_ex [] args_ex = Completed rep code
         \<and> length (c_tests config_ex) = 3 \<and> length (rp_results rep) = 2)"
proof -
  have h: "a_configFile args_ex = Some ''smoke.yaml''" "loadConfig files_ex ''smoke.yaml'' = Inr config_ex"
    "\<not> a_parallel args_ex" "a_bail args_ex"
    by (simp_all add: args_ex_def files_ex_def loadConfig_def)
  have v: "map tr_passed (dispatch_all pf_ok (baseUrl_of (resolve_env config_ex (a_env args_ex)))
             (envHeaders_of (resolve_env config_ex (a_env args_ex))) (a_timeout args_ex)
             (c_tests config_ex)) = [True, False, True]"
    by code_simp
  have n: "length (takeWhile tr_passed vs) = 1 \<and> \<not> list_all tr_passed vs"
    if "map tr_passed vs = [True, False, True]" for vs :: "TestResult list"
    using that by (auto simp: map_eq_Cons_conv)
  from sequential_bail_report [OF h, of pf_ok "[]"] n [OF v] h show ?thesis
    by (auto simp: Let_def config_ex_def)
qed

text \<open>
  C4. In parallel mode, once every request has settled, in whatever order, the run
  completes with exactly one verdict per authored test, the \<open>k\<close>-th verdict being that of
  the \<open>k\<close>-th test; neither the \<^verbatim>\<open>bail\<close> flag nor the order of settling changes the outcome.
\<close>

theorem parallel_report:
  assumes "a_configFile args = Some f" and "loadConfig files f = Inr config"
    and "a_parallel args" and "{..<length (c_tests config)} \<subseteq> set order"
  shows "\<exists>rep code. cmdRun pf files order args = Completed rep code \<and>
           length (rp_results rep) = length (c_tests config) \<and>
           (\<forall>k < length (c_tests config).
              rp_results rep ! k =
                runTest pf k (c_tests config ! k) (baseUrl_of (resolve_env config (a_env args)))
                  (envHeaders_of (resolve_env config (a_env args))) (a_timeout args)) \<and>
           (\<forall>bail. cmdRun pf files order (args\<lparr>a_bail := bail\<rparr>) = Completed rep code) \<and>
           (\<forall>order'. {..<length (c_tests config)} \<subseteq> set order' \<longrightarrow>
              cmdRun pf files order' args = Completed rep code)"
proof -
  have "a_configFile (args\<lparr>a_bail := bail\<rparr>) = Some f" "a_parallel (args\<lparr>a_bail := bail\<rparr>)" for bail
    using assms by simp_all
  from cmdRun_parallel [OF this(1) assms(2) this(2), of pf order]
       cmdRun_parallel [OF assms(1,2,3), of pf]
  show ?thesis
    using assms(4) by (simp add: Let_def make_report_def dispatch_all_nth)
qed

theorem parallel_report_witness:
  "a_configFile (args_ex\<lparr>a_parallel := True\<rparr>) = Some ''smoke.yaml''
   \<and> loadConfig files_ex ''smoke.yaml'' = Inr config_ex
   \<and> a_parallel (args_ex\<lparr>a_parallel := True\<rparr>)
   \<and> {..<length (c_tests config_ex)} \<subseteq> set [2, 0, 1]
   \<and> (\<exists>rep code. cmdRun pf_ok files_ex [2, 0, 1] (args_ex\<lparr>a_parallel := True\<rparr>) = Completed rep code
         \<and> map tr_name (rp_results rep) = [''Ping'', ''Health'', ''Ping''])"
proof -
  have h: "a_configFile (args_ex\<lparr>a_parallel := True\<rparr>) = Some ''smoke.yaml''"
    "loadConfig files_ex ''smoke.yaml'' = Inr config_ex" "a_parallel (args_ex\<lparr>a_parallel := True\<rparr>)"
    by (simp_all add: args_ex_def files_ex_def loadConfig_def)
  have len: "length (c_tests config_ex) = 3"
    by (simp add: config_ex_def)
  have cover: "{..<length (c_tests config_ex)} \<subseteq> set [2, 0, 1]"
    unfolding len by auto
  have names: "tr_name (runTest pf k t b hs to) = t_name t" for pf k t b hs to
    by (cases "makeRequest pf k (b @ t_path t) (method_of (t_method t))
                 (merge_headers hs (t_headers t)) (t_body t) to")
       (simp_all add: runTest_def Let_def)
  from parallel_report [OF h cover, of pf_ok] obtain rep code
    where run: "cmdRun pf_ok files_ex [2, 0, 1] (args_ex\<lparr>a_parallel := True\<rparr>) = Completed rep code"
      and l: "length (rp_results rep) = 3"
      and nth: "\<And>k. k < 3 \<Longrightarrow> tr_name (rp_results rep ! k) = t_name (c_tests config_ex ! k)"
    unfolding len by (auto simp: names)
  from l obtain x y z where xyz: "rp_results rep = [x, y, z]"
    by (auto simp: numeral_3_eq_3 length_Suc_conv)
  have "map tr_name (rp_results rep) = [''Ping'', ''Health'', ''Ping'']"
    using nth [of 0] nth [of 1] nth [of 2]
    by (simp add: xyz config_ex_def bare_test_def health_test_def)
  with run have "\<exists>rep code. cmdRun pf_ok files_ex [2, 0, 1] (args_ex\<lparr>a_parallel := True\<rparr>) = Completed rep code
         \<and> map tr_name (rp_results rep) = [''Ping'', ''Health'', ''Ping'']"
    by auto
  with h cover show ?thesis by (intro conjI)
qed

text \<open>
  C5. A run that completes ends with exit status 0 exactly when no verdict of its report
  has a transport error or a failed outcome, and with status 1 otherwise; status 0 is
  the same as a failed count of zero, and a report without verdicts gives status 0.
\<close>

theorem exit_code_zero_iff_all_passed:
  assumes "cmdRun pf files order args = Completed rep code"
  shows "(code = 0 \<longleftrightarrow>
            (\<forall>r \<in> set (rp_results rep). tr_error r = None \<and> list_all as_passed (tr_assertions r)))
       \<and> (code \<noteq> 0 \<longleftrightarrow> code = 1)
       \<and> (code = 0 \<longleftrightarrow> rp_failed rep = 0)
       \<and> (rp_results rep = [] \<longrightarrow> code = 0)"
proof -
  have ok: "tr_passed r \<longleftrightarrow> tr_error r = None \<and> list_all as_passed (tr_assertions r)"
    if "r \<in> set (rp_results rep)" for r
  proof -
    from cmdRun_results_runTest [OF assms that]
    obtain j t b h to where "r = runTest pf j t b h to" by blast
    then show ?thesis by (simp add: runTest_passed_iff)
  qed
  have code: "code = exit_code (rp_results rep)"
    and failed: "rp_failed rep = length (filter (\<lambda>r. \<not> tr_passed r) (rp_results rep))"
    using cmdRun_exit_code [OF assms] by simp_all
  have "code = 0 \<longleftrightarrow> (\<forall>r \<in> set (rp_results rep). tr_passed r)"
    by (simp add: code exit_code_def list_ex_iff)
  moreover have "rp_failed rep = 0 \<longleftrightarrow> (\<forall>r \<in> set (rp_results rep). tr_passed r)"
    by (auto simp: failed filter_empty_conv)
  moreover have "code \<noteq> 0 \<longleftrightarrow> code = 1"
    by (simp add: code exit_code_def)
  ultimately show ?thesis using ok by auto
qed

theorem exit_code_zero_iff_all_passed_witness:
  "cmdRun pf_ok files_ex [] (args_ex\<lparr>a_bail := False\<rparr>) =
     Completed (make_report ''prod'' [] (verdicts_from pf_ok [] [] 10000 0 (c_tests config_ex))) 1
   \<and> \<not> (\<forall>r \<in> set (verdicts_from pf_ok [] [] 10000 0 (c_tests config_ex)).
           tr_error r = None \<and> list_all as_passed (tr_assertions r))"
proof -
  have run: "cmdRun pf_ok files_ex [] (args_ex\<lparr>a_bail := False\<rparr>) =
     Completed (make_report ''prod'' [] (verdicts_from pf_ok [] [] 10000 0 (c_tests config_ex))) 1"
    by code_simp
  from exit_code_zero_iff_all_passed [OF run] run show ?thesis
    by (simp add: make_report_def)
qed









text \<open>
  C9. The headers of every request built by \<^verbatim>\<open>makeRequest\<close> have a \<^verbatim>\<open>User-Agent\<close> entry:
  the value given by the caller's headers when they declare one, and the client's own
  \<^verbatim>\<open>api-smoke/1.0.0\<close> otherwise. In particular the request of a test, built from the
  environment's default headers and the test's own, has the entry, and that request is
  the one the transport is asked to send.
\<close>

theorem request_carries_user_agent:
  "(\<exists>v. obj_get (rq_headers (build_request url method headers body timeout)) ''User-Agent'' = Some v \<and>
       (if ''User-Agent'' \<in> fst ` set headers then (''User-Agent'', v) \<in> set headers
        else v = user_agent))
   \<and> (\<exists>v. obj_get (rq_headers (test_request test baseUrl envHeaders timeout)) ''User-Agent'' = Some v)
   \<and> makeRequest pf i (baseUrl @ t_path test) (method_of (t_method test))
         (merge_headers envHeaders (t_headers test)) (t_body test) timeout =
       (case pf_transport pf i (test_request test baseUrl envHeaders timeout) of
          ResponseEnd res \<Rightarrow> Inr (on_end (pf_parse pf) res)
        | ErrorEvent message \<Rightarrow> Inl message
        | TimeoutEvent \<Rightarrow> Inl (''Timeout after '' @ show_int timeout @ ''ms''))"
proof -
  have 1: "\<exists>v. obj_get (rq_headers (build_request url method headers body timeout)) ''User-Agent'' = Some v \<and>
       (if ''User-Agent'' \<in> fst ` set headers then (''User-Agent'', v) \<in> set headers
        else v = user_agent)"
    using reqHeaders_user_agent [of headers "bodyStr_of body"]
    by (simp add: build_request_def Let_def)
  have 2: "\<exists>v. obj_get (rq_headers (test_request test baseUrl envHeaders timeout)) ''User-Agent'' = Some v"
    using reqHeaders_user_agent [of "merge_headers envHeaders (t_headers test)" "bodyStr_of (t_body test)"]
    by (auto simp: test_request_def build_request_def Let_def)
  from 1 2 show ?thesis
    by (simp add: test_request_def makeRequest_def)
qed

theorem request_carries_user_agent_witness:
  "obj_get (rq_headers (test_request (bare_test\<lparr>t_headers := Some [(''Accept'', ''text/plain'')]\<rparr>)
      ''http://h'' [(''Authorization'', ''Bearer t'')] 100)) ''User-Agent'' = Some ''api-smoke/1.0.0''"
  using request_carries_user_agent [of "''http://h/ping''" "''GET''"
      "[(''Authorization'', ''Bearer t''), (''Accept'', ''text/plain'')]" None 100]
  by (simp add: test_request_def bare_test_def merge_headers_def method_of_def str_or_def
        user_agent_def)



end
